theory Spec2Isabelle
  imports Complex_Main "HOL-Library.Multiset"
begin

section \<open>The QASC training script \<^verbatim>\<open>train_qasc.py\<close>\<close>

text \<open>
  The script reads line-delimited JSON questions, turns every question into one text per
  answer choice together with an 8-slot one-hot label vector, and runs a
  train/validate/test loop over epochs. The model below follows the Python source
  function by function. Exceptions are values of \<open>error\<close>; a function that can raise
  returns \<open>error + 'a\<close> with \<open>Inl\<close> for the exception.
\<close>

subsection \<open>Data\<close>

datatype error = ValueError | IndexError

text \<open>
  One line of the input file after \<^verbatim>\<open>json.loads\<close>: \<^verbatim>\<open>instance["question"]["stem"]\<close>,
  the \<^verbatim>\<open>"text"\<close> fields of \<^verbatim>\<open>instance["question"]["choices"]\<close>, and
  \<^verbatim>\<open>instance["answerKey"]\<close> when the key is present. A file is the list of its lines.
\<close>

record qarecord =
  stem :: string
  choices :: "string list"
  answerKey :: "string option"

text \<open>The two attributes \<^verbatim>\<open>self.content\<close> and \<^verbatim>\<open>self.labels\<close> of a \<^verbatim>\<open>QASCDataset\<close>.\<close>

record qasc_dataset =
  content :: "string list"
  labels :: "int list"

subsection \<open>\<^verbatim>\<open>random.shuffle\<close>\<close>

text \<open>
  The standard library shuffles in place, from the last position down to position 1:
  \<^verbatim>\<open>
  for i in reversed(range(1, len(x))):
      j = randbelow(i + 1)
      x[i], x[j] = x[j], x[i]
  \<close>
  The generator is a parameter \<open>rnd\<close>: the draw \<^verbatim>\<open>randbelow(n)\<close> is \<open>rnd n mod n\<close>, a
  number below \<open>n\<close>. Every \<open>n\<close> is drawn once in one shuffle, so every run of the
  generator is some \<open>rnd\<close>.
\<close>

definition randbelow :: "(nat \<Rightarrow> nat) \<Rightarrow> nat \<Rightarrow> nat" where
  "randbelow rnd n = rnd n mod n"

definition swap :: "'a list \<Rightarrow> nat \<Rightarrow> nat \<Rightarrow> 'a list" where
  "swap x i j = x[i := x ! j, j := x ! i]"

fun shuffle_from :: "(nat \<Rightarrow> nat) \<Rightarrow> nat \<Rightarrow> 'a list \<Rightarrow> 'a list" where
  "shuffle_from rnd 0 x = x"
| "shuffle_from rnd (Suc k) x =
     shuffle_from rnd k (swap x (Suc k) (randbelow rnd (Suc (Suc k))))"

definition random_shuffle :: "(nat \<Rightarrow> nat) \<Rightarrow> 'a list \<Rightarrow> 'a list" where
  "random_shuffle rnd x = shuffle_from rnd (length x - 1) x"

text \<open>The generator whose every draw is 0: position \<open>i\<close> is always exchanged with position 0.\<close>

definition draw_first :: "nat \<Rightarrow> nat" where
  "draw_first n = 0"

subsection \<open>\<^verbatim>\<open>QASCDataset.__init__\<close>\<close>

text \<open>
  The three format strings: \<^verbatim>\<open>"{} {}"\<close>, \<^verbatim>\<open>"{} \\n {}"\<close> (in Python source: a
  backslash and the letter n, not a line break) and \<^verbatim>\<open>"{} {} {}"\<close>. The separator
  token is taken to be a string, as the stem and the choices are.
\<close>

definition format0 :: "string \<Rightarrow> string \<Rightarrow> string" where
  "format0 question c = question @ '' '' @ c"

definition format1 :: "string \<Rightarrow> string \<Rightarrow> string" where
  "format1 question c = question @ '' '' @ [CHR 0x5C, CHR ''n''] @ '' '' @ c"

definition format2 :: "string \<Rightarrow> string \<Rightarrow> string \<Rightarrow> string" where
  "format2 question sep_token c = question @ '' '' @ sep_token @ '' '' @ c"

text \<open>The inner loop \<^verbatim>\<open>for c in choices: content.append(...)\<close>.\<close>

fun append_each :: "(string \<Rightarrow> string) \<Rightarrow> string list \<Rightarrow> string list \<Rightarrow> string list" where
  "append_each fmt texts [] = texts"
| "append_each fmt texts (c # cs) = append_each fmt (texts @ [fmt c]) cs"

text \<open>The \<^verbatim>\<open>if / elif / elif\<close> chain on \<^verbatim>\<open>input_format\<close>; it has no \<^verbatim>\<open>else\<close>.\<close>

definition append_texts ::
  "string \<Rightarrow> string \<Rightarrow> string \<Rightarrow> string list \<Rightarrow> string list \<Rightarrow> string list" where
  "append_texts input_format sep_token question chs texts =
     (if input_format = ''0'' then append_each (format0 question) texts chs
      else if input_format = ''1'' then append_each (format1 question) texts chs
      else if input_format = ''2'' then append_each (format2 question sep_token) texts chs
      else texts)"

definition answers :: "string list" where
  "answers = [''A'', ''B'', ''C'', ''D'', ''E'', ''F'', ''G'', ''H'']"

text \<open>\<^verbatim>\<open>list.index\<close>: the first position of the value, \<^verbatim>\<open>ValueError\<close> when it is absent.\<close>

fun list_index :: "'a list \<Rightarrow> 'a \<Rightarrow> error + nat" where
  "list_index [] v = Inl ValueError"
| "list_index (a # as) v =
     (if a = v then Inr 0
      else case list_index as v of Inl e \<Rightarrow> Inl e | Inr i \<Rightarrow> Inr (Suc i))"

text \<open>\<^verbatim>\<open>y = [0, 0, 0, 0, 0, 0, 0, 0]; y[answers.index(l)] = 1\<close>.\<close>

definition encode_label :: "string \<Rightarrow> error + int list" where
  "encode_label l =
     (case list_index answers l of
        Inl e \<Rightarrow> Inl e
      | Inr i \<Rightarrow> Inr ([0, 0, 0, 0, 0, 0, 0, 0][i := 1]))"

text \<open>
  \<^verbatim>\<open>if "answerKey" in instance: l = instance["answerKey"]\<close>, \<^verbatim>\<open>else: l = "A"\<close>.
\<close>

definition label_key :: "qarecord \<Rightarrow> string" where
  "label_key inst = (case answerKey inst of Some k \<Rightarrow> k | None \<Rightarrow> ''A'')"

text \<open>One pass of the loop \<^verbatim>\<open>for line in x\<close>, on the pair of \<^verbatim>\<open>content\<close> and \<^verbatim>\<open>labels\<close>.\<close>

definition init_step ::
  "string \<Rightarrow> string \<Rightarrow> string list \<times> int list \<Rightarrow> qarecord \<Rightarrow> error + string list \<times> int list" where
  "init_step sep_token input_format acc inst =
     (let question = stem inst;
          chs = choices inst;
          l = label_key inst;
          content' = append_texts input_format sep_token question chs (fst acc)
      in case encode_label l of
           Inl e \<Rightarrow> Inl e
         | Inr y \<Rightarrow> Inr (content', snd acc @ y))"

fun init_loop ::
  "string \<Rightarrow> string \<Rightarrow> string list \<times> int list \<Rightarrow> qarecord list \<Rightarrow> error + string list \<times> int list" where
  "init_loop sep_token input_format acc [] = Inr acc"
| "init_loop sep_token input_format acc (inst # x) =
     (case init_step sep_token input_format acc inst of
        Inl e \<Rightarrow> Inl e
      | Inr acc' \<Rightarrow> init_loop sep_token input_format acc' x)"

definition QASCDataset ::
  "(nat \<Rightarrow> nat) \<Rightarrow> qarecord list \<Rightarrow> string \<Rightarrow> string \<Rightarrow> bool \<Rightarrow> error + qasc_dataset" where
  "QASCDataset rnd f sep_token input_format shuffle =
     (let x = (if shuffle then random_shuffle rnd f else f)
      in case init_loop sep_token input_format ([], []) x of
           Inl e \<Rightarrow> Inl e
         | Inr acc \<Rightarrow> Inr \<lparr>content = fst acc, labels = snd acc\<rparr>)"

text \<open>\<^verbatim>\<open>__len__\<close> and \<^verbatim>\<open>__getitem__\<close> (the loaders pass indices from 0).\<close>

definition len :: "qasc_dataset \<Rightarrow> nat" where
  "len ds = length (content ds)"

definition getitem :: "qasc_dataset \<Rightarrow> nat \<Rightarrow> error + string \<times> int" where
  "getitem ds index =
     (if index < length (content ds) \<and> index < length (labels ds)
      then Inr (content ds ! index, labels ds ! index)
      else Inl IndexError)"

text \<open>The flat sequence a loader reads: item \<open>0\<close> up to item \<open>len - 1\<close>.\<close>

definition examples :: "qasc_dataset \<Rightarrow> (error + string \<times> int) list" where
  "examples ds = map (getitem ds) [0..<len ds]"

subsection \<open>\<^verbatim>\<open>configure_dataloaders\<close>\<close>







subsection \<open>\<^verbatim>\<open>train_or_eval_model\<close>: the instance labels\<close>

text \<open>
  \<^verbatim>\<open>np.array(all_labels_cls).reshape(-1, args.num_choices)\<close>: the row count is the
  length divided by the column count; numpy raises \<^verbatim>\<open>ValueError\<close> when the division
  leaves a rest or the column count is 0.
\<close>

definition num_choices :: nat where
  "num_choices = 8"

fun rows :: "nat \<Rightarrow> nat \<Rightarrow> 'a list \<Rightarrow> 'a list list" where
  "rows 0 ncols xs = []"
| "rows (Suc k) ncols xs = take ncols xs # rows k ncols (drop ncols xs)"

definition reshape :: "nat \<Rightarrow> 'a list \<Rightarrow> error + 'a list list" where
  "reshape ncols xs =
     (if ncols = 0 \<or> length xs mod ncols \<noteq> 0 then Inl ValueError
      else Inr (rows (length xs div ncols) ncols xs))"

subsection \<open>The epoch loop\<close>

text \<open>
  Of the main program the model keeps the checkpoint decision:
  \<^verbatim>\<open>
  dev_best_acc = 0
  for e in range(epochs):
      ...
      if val_acc > dev_best_acc:
          save_model(output_model_path, model, optimizer)
  \<close>
  \<open>val_acc e\<close> is the validation accuracy that \<^verbatim>\<open>train_or_eval_model\<close> returns in
  epoch \<open>e\<close>, a number with four decimals. \<open>saved\<close> lists the epochs in which
  \<^verbatim>\<open>save_model\<close> ran. Nothing in the loop assigns \<^verbatim>\<open>dev_best_acc\<close>.
\<close>

record driver =
  dev_best_acc :: rat
  saved :: "nat list"

definition epoch :: "(nat \<Rightarrow> rat) \<Rightarrow> driver \<Rightarrow> nat \<Rightarrow> driver" where
  "epoch val_acc st e =
     (if val_acc e > dev_best_acc st then st\<lparr>saved := saved st @ [e]\<rparr> else st)"

definition run_epochs :: "nat \<Rightarrow> (nat \<Rightarrow> rat) \<Rightarrow> driver" where
  "run_epochs epochs val_acc =
     foldl (epoch val_acc) \<lparr>dev_best_acc = 0, saved = []\<rparr> [0..<epochs]"

text \<open>A run whose validation accuracy is 0.5 in every epoch.\<close>

definition steady_half :: "nat \<Rightarrow> rat" where
  "steady_half e = 1 / 2"

subsection \<open>Notions the properties speak of\<close>

text \<open>
  The texts one record adds to \<^verbatim>\<open>content\<close>, the label vector it adds to
  \<^verbatim>\<open>labels\<close> (none when the lookup raises), and the text of one choice in the modes
  \<^verbatim>\<open>"0"\<close>, \<^verbatim>\<open>"1"\<close> and \<^verbatim>\<open>"2"\<close>.
\<close>

definition record_texts :: "string \<Rightarrow> string \<Rightarrow> qarecord \<Rightarrow> string list" where
  "record_texts input_format sep_token inst =
     append_texts input_format sep_token (stem inst) (choices inst) []"

definition one_hot :: "qarecord \<Rightarrow> int list" where
  "one_hot inst = (case encode_label (label_key inst) of Inl e \<Rightarrow> [] | Inr y \<Rightarrow> y)"

definition formatted :: "string \<Rightarrow> string \<Rightarrow> string \<Rightarrow> string \<Rightarrow> string" where
  "formatted input_format sep_token question c =
     (if input_format = ''0'' then format0 question c
      else if input_format = ''1'' then format1 question c
      else format2 question sep_token c)"

text \<open>
  The lines in the order the loop reads them, and the number of texts that the records
  of a prefix of the file add: where the next record's texts start in \<^verbatim>\<open>content\<close>.
\<close>

definition read_order :: "(nat \<Rightarrow> nat) \<Rightarrow> bool \<Rightarrow> qarecord list \<Rightarrow> qarecord list" where
  "read_order rnd shuffle f = (if shuffle then random_shuffle rnd f else f)"

definition texts_before :: "string \<Rightarrow> string \<Rightarrow> qarecord list \<Rightarrow> nat" where
  "texts_before input_format sep_token pre =
     length (concat (map (record_texts input_format sep_token) pre))"

text \<open>
  The group of a record in a dataset: the items of the flat sequence at the positions of
  the record's texts. \<open>split_by\<close> cuts a sequence into consecutive pieces of given lengths.
\<close>

fun split_by :: "nat list \<Rightarrow> 'a list \<Rightarrow> 'a list list" where
  "split_by [] xs = []"
| "split_by (n # ns) xs = take n xs # split_by ns (drop n xs)"

definition record_groups ::
  "string \<Rightarrow> string \<Rightarrow> qarecord list \<Rightarrow> qasc_dataset \<Rightarrow> (error + string \<times> int) list list" where
  "record_groups input_format sep_token x ds =
     split_by (map (\<lambda>inst. length (record_texts input_format sep_token inst)) x) (examples ds)"

text \<open>
  The items a record gives when its texts meet the slots of its own label vector, and
  the groups of a whole construction, one per record in the order the loop read them.
\<close>

definition formatted_examples :: "string \<Rightarrow> string \<Rightarrow> qarecord \<Rightarrow> (error + string \<times> int) list" where
  "formatted_examples input_format sep_token inst =
     map Inr (zip (record_texts input_format sep_token inst) (one_hot inst))"

definition dataset_groups ::
  "(nat \<Rightarrow> nat) \<Rightarrow> qarecord list \<Rightarrow> string \<Rightarrow> string \<Rightarrow> bool \<Rightarrow>
   error + (error + string \<times> int) list list" where
  "dataset_groups rnd f sep_token input_format shuffle =
     (case QASCDataset rnd f sep_token input_format shuffle of
        Inl e \<Rightarrow> Inl e
      | Inr ds \<Rightarrow> Inr (record_groups input_format sep_token (read_order rnd shuffle f) ds))"


text \<open>Two files for examples: questions with two choices, and questions with eight.\<close>

definition two_choice :: "string \<Rightarrow> string \<Rightarrow> qarecord" where
  "two_choice question k = \<lparr>stem = question, choices = [''x'', ''y''], answerKey = Some k\<rparr>"

definition eight_choice :: "string \<Rightarrow> string \<Rightarrow> qarecord" where
  "eight_choice question k =
     \<lparr>stem = question,
      choices = [''a'', ''b'', ''c'', ''d'', ''e'', ''f'', ''g'', ''h''],
      answerKey = Some k\<rparr>"

definition two_questions :: "qarecord list" where
  "two_questions = [two_choice ''p'' ''B'', two_choice ''q'' ''A'']"

definition two_eights :: "qarecord list" where
  "two_eights = [eight_choice ''p'' ''A'', eight_choice ''q'' ''B'']"


section \<open>Properties\<close>

lemma append_each_map: "append_each fmt texts cs = texts @ map fmt cs"
  by (induction cs arbitrary: texts) simp_all

subsection \<open>The shuffle is a permutation\<close>

lemma length_swap: "length (swap x i j) = length x"
  by (simp add: swap_def)

lemma mset_swap_list: "i < length x \<Longrightarrow> j < length x \<Longrightarrow> mset (swap x i j) = mset x"
  unfolding swap_def by (rule mset_swap)

lemma randbelow_less: "0 < n \<Longrightarrow> randbelow rnd n < n"
  by (simp add: randbelow_def)

lemma mset_shuffle_from: "k < length x \<Longrightarrow> mset (shuffle_from rnd k x) = mset x"
proof (induction k arbitrary: x)
  case 0
  then show ?case by simp
next
  case (Suc k)
  have j: "randbelow rnd (Suc (Suc k)) < Suc (Suc k)"
    by (rule randbelow_less) simp
  with Suc.prems have "randbelow rnd (Suc (Suc k)) < length x"
    by linarith
  with Suc.prems have "mset (swap x (Suc k) (randbelow rnd (Suc (Suc k)))) = mset x"
    by (simp add: mset_swap_list)
  moreover from Suc.prems have "k < length (swap x (Suc k) (randbelow rnd (Suc (Suc k))))"
    by (simp add: length_swap)
  ultimately show ?case
    using Suc.IH by simp
qed

lemma mset_random_shuffle: "mset (random_shuffle rnd x) = mset x"
proof (cases x)
  case Nil
  then show ?thesis by (simp add: random_shuffle_def)
next
  case (Cons a as)
  then have "length x - 1 < length x" by simp
  then show ?thesis
    unfolding random_shuffle_def by (rule mset_shuffle_from)
qed

lemma set_random_shuffle: "set (random_shuffle rnd x) = set x"
  using mset_random_shuffle [of rnd x] by (rule mset_eq_setD)

lemma length_random_shuffle: "length (random_shuffle rnd x) = length x"
  using mset_random_shuffle [of rnd x] by (rule mset_eq_length)

lemma mset_read_order: "mset (read_order rnd shuffle f) = mset f"
  by (simp add: read_order_def mset_random_shuffle)

lemma set_read_order: "set (read_order rnd shuffle f) = set f"
  by (simp add: read_order_def set_random_shuffle)

subsection \<open>The label lookup\<close>

lemma list_index_Inl: "(list_index xs v = Inl e) = (e = ValueError \<and> v \<notin> set xs)"
  by (induction xs) (auto split: sum.splits)

lemma list_index_Inr: "list_index xs v = Inr i \<Longrightarrow> i < length xs \<and> xs ! i = v"
  by (induction xs arbitrary: i) (auto split: if_splits sum.splits)

lemma list_index_Inr_mem: "list_index xs v = Inr i \<Longrightarrow> v \<in> set xs"
  using list_index_Inr [of xs v i] nth_mem [of i xs] by auto

lemma list_index_mem: "v \<in> set xs \<Longrightarrow> \<exists>i. list_index xs v = Inr i"
  by (cases "list_index xs v") (simp_all add: list_index_Inl)

lemma length_answers: "length answers = 8"
  by (simp add: answers_def)

lemma encode_label_Inl: "(encode_label l = Inl e) = (e = ValueError \<and> l \<notin> set answers)"
  by (auto simp: encode_label_def list_index_Inl split: sum.splits dest: list_index_Inr_mem)

lemma encode_label_Inr:
  "encode_label l = Inr y \<Longrightarrow>
     \<exists>i<8. list_index answers l = Inr i \<and> y = [0, 0, 0, 0, 0, 0, 0, 0][i := 1]"
  using list_index_Inr [of answers l]
  by (auto simp: encode_label_def length_answers split: sum.splits)

lemma one_hot_member:
  assumes "label_key inst \<in> set answers"
  shows "encode_label (label_key inst) = Inr (one_hot inst)"
proof (cases "encode_label (label_key inst)")
  case (Inl e)
  with assms show ?thesis by (simp add: encode_label_Inl)
next
  case (Inr y)
  then show ?thesis by (simp add: one_hot_def)
qed


lemma length_one_hot:
  assumes "label_key inst \<in> set answers"
  shows "length (one_hot inst) = 8"
proof -
  from assms have "encode_label (label_key inst) = Inr (one_hot inst)"
    by (rule one_hot_member)
  then obtain i where "one_hot inst = [0, 0, 0, 0, 0, 0, 0, 0][i := 1]"
    using encode_label_Inr by blast
  then have "length (one_hot inst) = length [0, 0, 0, 0, 0, 0, 0, 0 :: int]"
    by (simp only: length_list_update)
  then show ?thesis by simp
qed

lemma zeros8: "[0, 0, 0, 0, 0, 0, 0, 0] = replicate 8 (0::int)"
  by (simp add: eval_nat_numeral)


subsection \<open>What the loop computes\<close>

lemma append_texts_acc:
  "append_texts input_format sep_token question chs texts =
     texts @ append_texts input_format sep_token question chs []"
  by (simp add: append_texts_def append_each_map)

lemma record_texts_valid:
  "input_format \<in> {''0'', ''1'', ''2''} \<Longrightarrow>
     record_texts input_format sep_token inst =
       map (formatted input_format sep_token (stem inst)) (choices inst)"
  by (auto simp: record_texts_def append_texts_def append_each_map formatted_def)

lemma record_texts_other:
  "input_format \<notin> {''0'', ''1'', ''2''} \<Longrightarrow> record_texts input_format sep_token inst = []"
  by (simp add: record_texts_def append_texts_def)

lemma length_record_texts_le:
  "length (record_texts input_format sep_token inst) \<le> length (choices inst)"
proof (cases "input_format \<in> {''0'', ''1'', ''2''}")
  case True
  then show ?thesis by (simp only: record_texts_valid length_map order_refl)
next
  case False
  then show ?thesis by (simp add: record_texts_other)
qed

lemma init_step_eq:
  "init_step sep_token input_format acc inst =
     (if label_key inst \<in> set answers
      then Inr (fst acc @ record_texts input_format sep_token inst, snd acc @ one_hot inst)
      else Inl ValueError)"
proof (cases "label_key inst \<in> set answers")
  case True
  then show ?thesis
    using append_texts_acc [of input_format sep_token "stem inst" "choices inst" "fst acc"]
    by (simp add: init_step_def one_hot_member record_texts_def)
next
  case False
  then have "encode_label (label_key inst) = Inl ValueError"
    by (simp add: encode_label_Inl)
  with False show ?thesis by (simp add: init_step_def)
qed

lemma init_loop_eq:
  "init_loop sep_token input_format acc x =
     (if \<forall>inst\<in>set x. label_key inst \<in> set answers
      then Inr (fst acc @ concat (map (record_texts input_format sep_token) x),
                snd acc @ concat (map one_hot x))
      else Inl ValueError)"
  by (induction x arbitrary: acc) (simp_all add: init_step_eq)

lemma QASCDataset_eq:
  "QASCDataset rnd f sep_token input_format shuffle =
     (if \<forall>inst\<in>set f. label_key inst \<in> set answers
      then Inr \<lparr>content = concat (map (record_texts input_format sep_token) (read_order rnd shuffle f)),
                labels = concat (map one_hot (read_order rnd shuffle f))\<rparr>
      else Inl ValueError)"
  using set_read_order [of rnd shuffle f]
  by (simp add: QASCDataset_def init_loop_eq read_order_def Let_def)

lemma QASCDataset_Inr:
  assumes "QASCDataset rnd f sep_token input_format shuffle = Inr ds"
  shows "(\<forall>inst\<in>set f. label_key inst \<in> set answers)
       \<and> content ds = concat (map (record_texts input_format sep_token) (read_order rnd shuffle f))
       \<and> labels ds = concat (map one_hot (read_order rnd shuffle f))"
  using assms by (auto simp: QASCDataset_eq split: if_splits)

subsection \<open>The three format modes\<close>

text \<open>
  C6 (as amended). For every stem, choice and separator token, the text of a choice is:
  in mode \<^verbatim>\<open>"0"\<close> the stem, one space, the choice; in mode \<^verbatim>\<open>"1"\<close> the stem, a space,
  the two characters backslash and \<open>n\<close>, a space, the choice; in mode \<^verbatim>\<open>"2"\<close> the stem,
  a space, the separator token, a space, the choice. The texts of a record are appended
  to \<^verbatim>\<open>content\<close> in the order of its choices.
\<close>

theorem format_modes:
  "append_texts ''0'' sep_token question chs texts =
     texts @ map (\<lambda>c. question @ '' '' @ c) chs
   \<and> append_texts ''1'' sep_token question chs texts =
     texts @ map (\<lambda>c. question @ '' '' @ [CHR 0x5C, CHR ''n''] @ '' '' @ c) chs
   \<and> append_texts ''2'' sep_token question chs texts =
     texts @ map (\<lambda>c. question @ '' '' @ sep_token @ '' '' @ c) chs"
proof -
  have f0: "format0 question = (\<lambda>c. question @ '' '' @ c)"
    by (simp add: fun_eq_iff format0_def)
  have f1: "format1 question = (\<lambda>c. question @ '' '' @ [CHR 0x5C, CHR ''n''] @ '' '' @ c)"
    by (simp add: fun_eq_iff format1_def)
  have f2: "format2 question sep_token = (\<lambda>c. question @ '' '' @ sep_token @ '' '' @ c)"
    by (simp add: fun_eq_iff format2_def)
  show ?thesis
    by (simp add: append_texts_def append_each_map f0 f1 f2)
qed

text \<open>
  C6 as stated fails: in mode \<^verbatim>\<open>"1"\<close> the stem \<open>a\<close> and the choice \<open>b\<close> are not joined
  by the marker alone (neither by backslash and \<open>n\<close>, nor by a line break), and in mode
  \<^verbatim>\<open>"2"\<close> they are not joined by the separator token alone: the code puts a space on
  each side.
\<close>

theorem format_modes_counterexample:
  "append_texts ''1'' ''</s>'' ''a'' [''b''] [] \<noteq> [''a'' @ [CHR 0x5C, CHR ''n''] @ ''b'']
   \<and> append_texts ''1'' ''</s>'' ''a'' [''b''] [] \<noteq> [''a'' @ [CHR 0x0A] @ ''b'']
   \<and> append_texts ''2'' ''</s>'' ''a'' [''b''] [] \<noteq> [''a'' @ ''</s>'' @ ''b'']"
  by (simp add: append_texts_def format1_def format2_def)

subsection \<open>Failure of the label lookup\<close>

text \<open>
  C3 (as amended). The label lookup searches the fixed list of the letters A to H, whatever
  the number of choices of the record. One pass of the loop raises \<^verbatim>\<open>ValueError\<close>
  exactly when the answer key of the record (or \<open>A\<close>, when it has none) is not one of
  these eight strings; the construction of a dataset raises \<^verbatim>\<open>ValueError\<close> exactly when
  the file has such a record, and returns a dataset otherwise.
\<close>

theorem label_lookup_failure:
  "((init_step sep_token input_format acc inst = Inl ValueError)
      = (label_key inst \<notin> set answers))
   \<and> ((QASCDataset rnd f sep_token input_format shuffle = Inl ValueError)
      = (\<exists>inst\<in>set f. label_key inst \<notin> set answers))
   \<and> ((\<exists>ds. QASCDataset rnd f sep_token input_format shuffle = Inr ds)
      = (\<not> (\<exists>inst\<in>set f. label_key inst \<notin> set answers)))"
proof -
  have step: "(init_step sep_token input_format acc inst = Inl ValueError)
      = (label_key inst \<notin> set answers)"
    by (simp add: init_step_eq)
  have raises: "(QASCDataset rnd f sep_token input_format shuffle = Inl ValueError)
      = (\<exists>inst\<in>set f. label_key inst \<notin> set answers)"
    by (simp add: QASCDataset_eq)
  have returns: "(\<exists>ds. QASCDataset rnd f sep_token input_format shuffle = Inr ds)
      = (\<not> (\<exists>inst\<in>set f. label_key inst \<notin> set answers))"
    by (simp add: QASCDataset_eq)
  from step raises returns show ?thesis by blast
qed

text \<open>
  C3 as stated fails: a record with two choices and the answer key \<open>D\<close> is formatted
  without an error; slot 3 of its label vector is set.
\<close>

theorem label_lookup_counterexample:
  "QASCDataset draw_first [two_choice ''stem'' ''D''] ''</s>'' ''0'' False =
     Inr \<lparr>content = [''stem x'', ''stem y''], labels = [0, 0, 0, 1, 0, 0, 0, 0]\<rparr>"
  by (simp add: QASCDataset_def init_step_def label_key_def two_choice_def encode_label_def
      answers_def append_texts_def format0_def)

subsection \<open>The reshape into groups of eight\<close>

lemma rows_props:
  "length xs = ncols * k \<Longrightarrow>
     length (rows k ncols xs) = k
     \<and> (\<forall>row\<in>set (rows k ncols xs). length row = ncols)
     \<and> concat (rows k ncols xs) = xs"
proof (induction k arbitrary: xs)
  case 0
  then show ?case by simp
next
  case (Suc k)
  then have "length (drop ncols xs) = ncols * k" by simp
  then have "length (rows k ncols (drop ncols xs)) = k
     \<and> (\<forall>row\<in>set (rows k ncols (drop ncols xs)). length row = ncols)
     \<and> concat (rows k ncols (drop ncols xs)) = drop ncols xs"
    by (rule Suc.IH)
  moreover from Suc.prems have "length (take ncols xs) = ncols" by simp
  ultimately show ?case by simp
qed

text \<open>
  C4. Reshaping a flat label sequence into rows of \<^verbatim>\<open>num_choices\<close> = 8 columns returns
  \<open>k\<close> rows of 8 labels each, which together are the sequence, when the length is \<open>8 * k\<close>;
  it raises \<^verbatim>\<open>ValueError\<close> for every sequence whose length is not a multiple of 8.
\<close>

theorem reshape_groups_of_8:
  "(length xs = 8 * k \<longrightarrow>
      (\<exists>g. reshape num_choices xs = Inr g \<and> length g = k
          \<and> (\<forall>row\<in>set g. length row = 8) \<and> concat g = xs))
   \<and> (\<not> 8 dvd length xs \<longrightarrow> reshape num_choices xs = Inl ValueError)"
proof (intro conjI impI)
  assume len: "length xs = 8 * k"
  then have "reshape num_choices xs = Inr (rows k 8 xs)"
    by (simp add: reshape_def num_choices_def)
  with rows_props [OF len] show "\<exists>g. reshape num_choices xs = Inr g \<and> length g = k
          \<and> (\<forall>row\<in>set g. length row = 8) \<and> concat g = xs"
    by simp
next
  assume "\<not> 8 dvd length xs"
  then show "reshape num_choices xs = Inl ValueError"
    by (simp add: reshape_def num_choices_def dvd_eq_mod_eq_0)
qed

theorem reshape_groups_of_8_witness:
  "(\<exists>g. reshape num_choices [0, 0, 1, 0, 0, 0, 0, 0 :: int] = Inr g \<and> length g = 1
        \<and> concat g = [0, 0, 1, 0, 0, 0, 0, 0])
   \<and> reshape num_choices [0, 1, 0 :: int] = Inl ValueError"
proof -
  have multiple: "length [0, 0, 1, 0, 0, 0, 0, 0 :: int] = 8 * 1"
    by simp
  have len3: "length [0, 1, 0 :: int] = 3"
    by simp
  have rest: "\<not> 8 dvd length [0, 1, 0 :: int]"
    unfolding len3 by simp
  from multiple rest show ?thesis
    using reshape_groups_of_8 [of "[0, 0, 1, 0, 0, 0, 0, 0 :: int]" 1]
      reshape_groups_of_8 [of "[0, 1, 0 :: int]" 0]
    by blast
qed

subsection \<open>The checkpoint decision\<close>

lemma foldl_epoch_best: "dev_best_acc (foldl (epoch val_acc) st es) = dev_best_acc st"
  by (induction es arbitrary: st) (simp_all add: epoch_def)

lemma foldl_epoch_saved:
  "saved (foldl (epoch val_acc) st es) =
     saved st @ filter (\<lambda>e. val_acc e > dev_best_acc st) es"
proof (induction es arbitrary: st)
  case Nil
  then show ?case by simp
next
  case (Cons e es)
  have "dev_best_acc (epoch val_acc st e) = dev_best_acc st"
    by (simp add: epoch_def)
  with Cons.IH [of "epoch val_acc st e"] show ?case
    by (simp add: epoch_def)
qed

lemma run_epochs_saved:
  "saved (run_epochs epochs val_acc) = filter (\<lambda>e. val_acc e > 0) [0..<epochs]
   \<and> dev_best_acc (run_epochs epochs val_acc) = 0"
  by (simp add: run_epochs_def foldl_epoch_saved foldl_epoch_best)

text \<open>
  C2, at the input where the code departs from it. In a run of two epochs whose
  validation accuracy is 0.5 both times, \<^verbatim>\<open>save_model\<close> runs in epoch 0 and again in
  epoch 1, although 0.5 does not exceed the best accuracy seen before, which is 0.5; the
  variable \<^verbatim>\<open>dev_best_acc\<close> is still 0 at the end.
\<close>

theorem checkpoint_on_equal_accuracy:
  "saved (run_epochs 2 steady_half) = [0, 1]
   \<and> dev_best_acc (run_epochs 2 steady_half) = 0"
proof -
  have "[0..<2] = [0, Suc 0]"
    by (simp add: numeral_2_eq_2)
  then show ?thesis
    by (simp add: run_epochs_saved steady_half_def)
qed

subsection \<open>Positions in the flat sequence\<close>

lemma length_concat_const:
  "\<forall>r\<in>set x. length (g r) = n \<Longrightarrow> length (concat (map g x)) = n * length x"
  by (induction x) simp_all

lemma examples_zip:
  assumes "length (content ds) \<le> length (labels ds)"
  shows "examples ds = map Inr (zip (content ds) (labels ds))"
proof (rule nth_equalityI)
  from assms show "length (examples ds) = length (map Inr (zip (content ds) (labels ds)))"
    by (simp add: examples_def len_def)
next
  fix i
  assume "i < length (examples ds)"
  then have "i < length (content ds)"
    by (simp add: examples_def len_def)
  with assms show "examples ds ! i = map Inr (zip (content ds) (labels ds)) ! i"
    by (simp add: examples_def len_def getitem_def)
qed

lemma zip_concat_map:
  "\<forall>r\<in>set x. length (g r) = length (h r) \<Longrightarrow>
     zip (concat (map g x)) (concat (map h x)) = concat (map (\<lambda>r. zip (g r) (h r)) x)"
  by (induction x) simp_all

lemma split_by_concat: "split_by (map length gs) (concat gs) = gs"
  by (induction gs) simp_all





lemma content_nth:
  assumes fmt: "input_format \<in> {''0'', ''1'', ''2''}"
    and ds: "QASCDataset rnd f sep_token input_format shuffle = Inr ds"
    and pos: "read_order rnd shuffle f = pre @ inst # post"
    and n: "n < length (choices inst)"
  shows "content ds ! (texts_before input_format sep_token pre + n) =
     formatted input_format sep_token (stem inst) (choices inst ! n)"
proof -
  from ds pos have "content ds =
      concat (map (record_texts input_format sep_token) pre)
      @ record_texts input_format sep_token inst
      @ concat (map (record_texts input_format sep_token) post)"
    using QASCDataset_Inr [OF ds] by simp
  moreover from fmt n have "n < length (record_texts input_format sep_token inst)"
    by (simp only: record_texts_valid length_map)
  ultimately have "content ds ! (texts_before input_format sep_token pre + n) =
      record_texts input_format sep_token inst ! n"
    by (simp add: texts_before_def nth_append)
  also from fmt n have "\<dots> = formatted input_format sep_token (stem inst) (choices inst ! n)"
    by (simp only: record_texts_valid nth_map)
  finally show ?thesis .
qed

subsection \<open>The label vector of a record\<close>

lemma one_hot_shape:
  assumes "label_key inst \<in> set answers"
  shows "length (one_hot inst) = 8 \<and> sum_list (one_hot inst) = 1 \<and> set (one_hot inst) \<subseteq> {0, 1}"
proof -
  from assms have "encode_label (label_key inst) = Inr (one_hot inst)"
    by (rule one_hot_member)
  then obtain i where i: "i < 8" and "one_hot inst = [0, 0, 0, 0, 0, 0, 0, 0][i := 1]"
    using encode_label_Inr by blast
  then have y: "one_hot inst = (replicate 8 0)[i := 1]"
    by (simp only: zeros8)
  have size: "length ((replicate 8 (0::int))[i := 1]) = 8"
    by simp
  have total: "sum_list ((replicate 8 (0::int))[i := 1]) = 1"
    using i by (simp add: upd_conv_take_nth_drop sum_list_replicate)
  have "set ((replicate 8 (0::int))[i := 1]) \<subseteq> insert 1 (set (replicate 8 0))"
    by (rule set_update_subset_insert)
  then have slots: "set ((replicate 8 (0::int))[i := 1]) \<subseteq> {0, 1}"
    by auto
  from size total slots show ?thesis
    by (simp only: y)
qed





subsection \<open>An unknown format mode\<close>

text \<open>
  C10 (as amended). For every format mode other than \<^verbatim>\<open>"0"\<close>, \<^verbatim>\<open>"1"\<close> and \<^verbatim>\<open>"2"\<close>,
  and every file whose records have no answer key or one of the letters A to H, the
  construction returns a dataset: its text sequence is empty and its length is 0, while
  its label sequence holds one 8-slot one-hot vector for every record, in the order the
  records were read; so it has 8 labels per record and is not empty when the file has a
  record.
\<close>

theorem unknown_mode_keeps_labels:
  assumes "input_format \<notin> {''0'', ''1'', ''2''}"
    and "\<forall>inst\<in>set f. label_key inst \<in> set answers"
  shows "\<exists>ds. QASCDataset rnd f sep_token input_format shuffle = Inr ds
     \<and> content ds = [] \<and> len ds = 0
     \<and> labels ds = concat (map one_hot (read_order rnd shuffle f))
     \<and> (\<forall>inst\<in>set f. length (one_hot inst) = 8 \<and> sum_list (one_hot inst) = 1
           \<and> set (one_hot inst) \<subseteq> {0, 1})
     \<and> length (labels ds) = 8 * length f
     \<and> (f \<noteq> [] \<longrightarrow> labels ds \<noteq> [])"
proof -
  let ?x = "read_order rnd shuffle f"
  let ?ds = "\<lparr>content = concat (map (record_texts input_format sep_token) ?x),
             labels = concat (map one_hot ?x)\<rparr>"
  define ls where "ls = concat (map one_hot ?x)"
  from assms(2) have built: "QASCDataset rnd f sep_token input_format shuffle = Inr ?ds"
    by (simp add: QASCDataset_eq)
  from assms(1) have "map (record_texts input_format sep_token) ?x = map (\<lambda>inst. []) ?x"
    by (simp add: record_texts_other)
  then have empty: "content ?ds = []"
    by simp
  from assms(2) have shape: "\<forall>inst\<in>set f. length (one_hot inst) = 8
      \<and> sum_list (one_hot inst) = 1 \<and> set (one_hot inst) \<subseteq> {0, 1}"
    using one_hot_shape by blast
  then have "\<forall>inst\<in>set ?x. length (one_hot inst) = 8"
    by (simp add: set_read_order)
  then have "length (concat (map one_hot ?x)) = 8 * length ?x"
    by (rule length_concat_const)
  moreover have "length ?x = length f"
    using mset_read_order [of rnd shuffle f] by (rule mset_eq_length)
  ultimately have count0: "length ls = 8 * length f"
    by (simp add: ls_def)
  then have nonempty0: "f \<noteq> [] \<longrightarrow> ls \<noteq> []"
    by auto
  from count0 have count: "length (labels ?ds) = 8 * length f"
    by (simp add: ls_def)
  from nonempty0 have nonempty: "f \<noteq> [] \<longrightarrow> labels ?ds \<noteq> []"
    by (simp add: ls_def)
  have "len ?ds = 0"
    using empty by (simp add: len_def)
  with built empty shape count nonempty show ?thesis
    by (intro exI [of _ ?ds]) simp
qed

theorem unknown_mode_keeps_labels_witness:
  "\<exists>ds. QASCDataset draw_first [two_choice ''stem'' ''B''] ''</s>'' ''3'' False = Inr ds
     \<and> content ds = [] \<and> len ds = 0 \<and> length (labels ds) = 8 \<and> labels ds \<noteq> []"
proof -
  have mode: "''3'' \<notin> {''0'', ''1'', ''2''}"
    by simp
  have keys: "\<forall>inst\<in>set [two_choice ''stem'' ''B'']. label_key inst \<in> set answers"
    by (simp add: two_choice_def label_key_def answers_def)
  from unknown_mode_keeps_labels [OF mode keys, of draw_first "''</s>''" False]
  show ?thesis
    by auto
qed

text \<open>
  C10 as stated fails: with the unknown mode \<^verbatim>\<open>"3"\<close>, a file whose one record has the
  answer key \<open>Z\<close> is not turned into a dataset; the label lookup raises \<^verbatim>\<open>ValueError\<close>,
  as it does in the three known modes.
\<close>

theorem unknown_mode_counterexample:
  "QASCDataset draw_first [two_choice ''stem'' ''Z''] ''</s>'' ''3'' False = Inl ValueError"
  by (simp add: QASCDataset_eq two_choice_def label_key_def answers_def)

subsection \<open>The items of one record\<close>




subsection \<open>Shuffling the lines\<close>

lemma groups_of_records:
  assumes content: "content ds = concat (map (record_texts input_format sep_token) x)"
    and labels: "labels ds = concat (map one_hot x)"
    and keys: "\<forall>r\<in>set x. label_key r \<in> set answers"
    and all8: "\<forall>r\<in>set x. length (choices r) = 8"
  shows "record_groups input_format sep_token x ds =
       map (formatted_examples input_format sep_token) x
     \<and> examples ds = concat (map (formatted_examples input_format sep_token) x)"
proof -
  let ?T = "record_texts input_format sep_token"
  let ?G = "formatted_examples input_format sep_token"
  from keys have H8: "\<forall>r\<in>set x. length (one_hot r) = 8"
    using length_one_hot by blast
  have ex: "examples ds = concat (map ?G x)"
  proof (cases "input_format \<in> {''0'', ''1'', ''2''}")
    case True
    with all8 have T8: "\<forall>r\<in>set x. length (?T r) = 8"
      by (simp only: record_texts_valid length_map)
    with H8 have same: "\<forall>r\<in>set x. length (?T r) = length (one_hot r)"
      by simp
    from T8 have "length (concat (map ?T x)) = 8 * length x"
      by (rule length_concat_const)
    moreover from H8 have "length (concat (map one_hot x)) = 8 * length x"
      by (rule length_concat_const)
    ultimately have "length (content ds) \<le> length (labels ds)"
      by (simp only: content labels order_refl)
    then have "examples ds = map Inr (zip (content ds) (labels ds))"
      by (rule examples_zip)
    moreover from same have "zip (concat (map ?T x)) (concat (map one_hot x)) =
        concat (map (\<lambda>r. zip (?T r) (one_hot r)) x)"
      by (rule zip_concat_map)
    moreover have "?G = (\<lambda>r. map Inr (zip (?T r) (one_hot r)))"
      by (simp add: fun_eq_iff formatted_examples_def)
    ultimately show ?thesis
      by (simp add: content labels map_concat comp_def)
  next
    case False
    with content have "content ds = []"
      by (simp add: record_texts_other)
    then have "examples ds = []"
      by (simp add: examples_def len_def)
    moreover from False have "concat (map ?G x) = []"
      by (simp add: formatted_examples_def record_texts_other)
    ultimately show ?thesis by simp
  qed
  have "length (?G r) = length (?T r)" if "r \<in> set x" for r
  proof -
    have "length (?T r) \<le> length (choices r)"
      by (rule length_record_texts_le)
    with that all8 H8 show ?thesis
      by (simp add: formatted_examples_def)
  qed
  then have "map (\<lambda>r. length (?T r)) x = map length (map ?G x)"
    by simp
  then have "record_groups input_format sep_token x ds =
      split_by (map length (map ?G x)) (concat (map ?G x))"
    by (simp only: record_groups_def ex)
  then have "record_groups input_format sep_token x ds = map ?G x"
    by (simp only: split_by_concat)
  with ex show ?thesis by simp
qed

text \<open>
  C5 (as amended). For every file that loads and every format mode, constructing the
  dataset with the shuffle flag permutes the records: the stored texts and the stored
  label vectors are the concatenation, in the shuffled order of the records, of the same
  per-record text groups and 8-slot label vectors. When every record has exactly 8
  choices, the per-record groups of items are those of the construction without the
  flag, as a multiset: every group is the items of one record, in the order of its
  choices, and the flat sequence is the groups one after the other.
\<close>

theorem shuffle_permutes_groups:
  assumes "QASCDataset rnd f sep_token input_format False = Inr ds"
  shows "\<exists>ds'. QASCDataset rnd f sep_token input_format True = Inr ds'
     \<and> mset (random_shuffle rnd f) = mset f
     \<and> content ds' =
         concat (map (record_texts input_format sep_token) (random_shuffle rnd f))
     \<and> labels ds' = concat (map one_hot (random_shuffle rnd f))
     \<and> content ds = concat (map (record_texts input_format sep_token) f)
     \<and> labels ds = concat (map one_hot f)
     \<and> ((\<forall>inst\<in>set f. length (choices inst) = 8) \<longrightarrow>
          record_groups input_format sep_token f ds =
            map (formatted_examples input_format sep_token) f
        \<and> record_groups input_format sep_token (random_shuffle rnd f) ds' =
            map (formatted_examples input_format sep_token) (random_shuffle rnd f)
        \<and> mset (record_groups input_format sep_token (random_shuffle rnd f) ds') =
            mset (record_groups input_format sep_token f ds)
        \<and> concat (record_groups input_format sep_token (random_shuffle rnd f) ds') =
            examples ds')"
proof -
  let ?x = "random_shuffle rnd f"
  let ?T = "record_texts input_format sep_token"
  let ?G = "formatted_examples input_format sep_token"
  let ?ds' = "\<lparr>content = concat (map ?T ?x), labels = concat (map one_hot ?x)\<rparr>"
  from QASCDataset_Inr [OF assms]
  have keys: "\<forall>inst\<in>set f. label_key inst \<in> set answers"
    and content: "content ds = concat (map ?T f)"
    and labels: "labels ds = concat (map one_hot f)"
    by (simp_all add: read_order_def)
  from keys have built: "QASCDataset rnd f sep_token input_format True = Inr ?ds'"
    by (simp add: QASCDataset_eq read_order_def)
  have perm: "mset ?x = mset f"
    by (rule mset_random_shuffle)
  have groups: "record_groups input_format sep_token f ds = map ?G f
        \<and> record_groups input_format sep_token ?x ?ds' = map ?G ?x
        \<and> mset (record_groups input_format sep_token ?x ?ds') =
            mset (record_groups input_format sep_token f ds)
        \<and> concat (record_groups input_format sep_token ?x ?ds') = examples ?ds'"
    if all8: "\<forall>inst\<in>set f. length (choices inst) = 8"
  proof -
    have plain: "record_groups input_format sep_token f ds = map ?G f"
      using groups_of_records [OF content labels keys all8] by simp
    have keys': "\<forall>r\<in>set ?x. label_key r \<in> set answers"
      using keys by (simp add: set_random_shuffle)
    have all8': "\<forall>r\<in>set ?x. length (choices r) = 8"
      using all8 by (simp add: set_random_shuffle)
    have "content ?ds' = concat (map ?T ?x)" and "labels ?ds' = concat (map one_hot ?x)"
      by simp_all
    from groups_of_records [OF this keys' all8']
    have shuffled: "record_groups input_format sep_token ?x ?ds' = map ?G ?x"
      and flat: "examples ?ds' = concat (map ?G ?x)"
      by simp_all
    have "mset (map ?G ?x) = mset (map ?G f)"
      using perm by simp
    with plain shuffled flat show ?thesis
      by simp
  qed
  then have groups': "(\<forall>inst\<in>set f. length (choices inst) = 8) \<longrightarrow>
        record_groups input_format sep_token f ds = map ?G f
        \<and> record_groups input_format sep_token ?x ?ds' = map ?G ?x
        \<and> mset (record_groups input_format sep_token ?x ?ds') =
            mset (record_groups input_format sep_token f ds)
        \<and> concat (record_groups input_format sep_token ?x ?ds') = examples ?ds'"
    by blast
  have c': "content ?ds' = concat (map ?T ?x)"
    by simp
  have l': "labels ?ds' = concat (map one_hot ?x)"
    by simp
  show ?thesis
    by (rule exI [of _ ?ds']) (use built perm c' l' content labels groups' in blast)
qed

theorem shuffle_permutes_groups_witness:
  "\<exists>ds ds'. QASCDataset draw_first two_eights ''</s>'' ''0'' False = Inr ds
     \<and> QASCDataset draw_first two_eights ''</s>'' ''0'' True = Inr ds'
     \<and> random_shuffle draw_first two_eights = [eight_choice ''q'' ''B'', eight_choice ''p'' ''A'']
     \<and> mset (record_groups ''0'' ''</s>'' (random_shuffle draw_first two_eights) ds') =
         mset (record_groups ''0'' ''</s>'' two_eights ds)
     \<and> concat (record_groups ''0'' ''</s>'' (random_shuffle draw_first two_eights) ds') =
         examples ds'"
proof -
  have keys: "\<forall>inst\<in>set two_eights. label_key inst \<in> set answers"
    by (simp add: two_eights_def eight_choice_def label_key_def answers_def)
  then obtain ds where ds: "QASCDataset draw_first two_eights ''</s>'' ''0'' False = Inr ds"
    by (simp add: QASCDataset_eq)
  have all8: "\<forall>inst\<in>set two_eights. length (choices inst) = 8"
    by (simp add: two_eights_def eight_choice_def)
  have order: "random_shuffle draw_first two_eights =
      [eight_choice ''q'' ''B'', eight_choice ''p'' ''A'']"
    by (simp add: random_shuffle_def two_eights_def swap_def randbelow_def draw_first_def)
  from shuffle_permutes_groups [OF ds] all8 ds order show ?thesis
    by auto
qed

text \<open>
  C5 as stated fails. The file has two questions with two choices each, with the answer
  keys \<open>B\<close> and \<open>A\<close>. Without the flag the groups are \<open>(p x, 0), (p y, 1)\<close> and
  \<open>(q x, 0), (q y, 0)\<close>; with the flag and a generator that exchanges the two lines,
  they are \<open>(q x, 1), (q y, 0)\<close> and \<open>(p x, 0), (p y, 0)\<close>: another multiset of groups.
\<close>

theorem shuffle_permutes_groups_counterexample:
  "dataset_groups draw_first two_questions ''</s>'' ''0'' False =
     Inr [[Inr (''p x'', 0), Inr (''p y'', 1)], [Inr (''q x'', 0), Inr (''q y'', 0)]]
   \<and> dataset_groups draw_first two_questions ''</s>'' ''0'' True =
     Inr [[Inr (''q x'', 1), Inr (''q y'', 0)], [Inr (''p x'', 0), Inr (''p y'', 0)]]
   \<and> map_sum id mset (dataset_groups draw_first two_questions ''</s>'' ''0'' True) \<noteq>
     map_sum id mset (dataset_groups draw_first two_questions ''</s>'' ''0'' False)"
proof -
  have plain: "dataset_groups draw_first two_questions ''</s>'' ''0'' False =
     Inr [[Inr (''p x'', 0), Inr (''p y'', 1)], [Inr (''q x'', 0), Inr (''q y'', 0)]]"
    by code_simp
  have shuffled: "dataset_groups draw_first two_questions ''</s>'' ''0'' True =
     Inr [[Inr (''q x'', 1), Inr (''q y'', 0)], [Inr (''p x'', 0), Inr (''p y'', 0)]]"
    by code_simp
  have "[Inr (''q x'', 1), Inr (''q y'', 0)] \<notin>
      set [[Inr (''p x'', 0), Inr (''p y'', 1)], [Inr (''q x'', 0), Inr (''q y'', 0 :: int)]
           :: (error + string \<times> int) list]"
    by simp
  then have "mset [[Inr (''q x'', 1), Inr (''q y'', 0)], [Inr (''p x'', 0), Inr (''p y'', 0)]] \<noteq>
      mset [[Inr (''p x'', 0), Inr (''p y'', 1)], [Inr (''q x'', 0), Inr (''q y'', 0 :: int)]
            :: (error + string \<times> int) list]"
    by (metis list.set_intros(1) mset_eq_setD)
  with plain shuffled show ?thesis
    by simp
qed

subsection \<open>The text depends on the stem and the choice only\<close>

text \<open>
  C8. Fix a format mode among \<^verbatim>\<open>"0"\<close>, \<^verbatim>\<open>"1"\<close>, \<^verbatim>\<open>"2"\<close> and a separator token. Take
  two constructions of a dataset, from any two files, with any generators and shuffle
  flags, and in each a choice of a record. When the two records have the same stem and
  the two choices are the same string, the two texts produced are the same string:
  the text is \<open>formatted\<close> of the mode, the token, the stem and the choice, whatever the
  file, the position of the record, its other choices and its answer key.
\<close>

theorem text_depends_on_stem_and_choice:
  assumes fmt: "input_format \<in> {''0'', ''1'', ''2''}"
    and ds1: "QASCDataset rnd1 f1 sep_token input_format shuffle1 = Inr ds1"
    and ds2: "QASCDataset rnd2 f2 sep_token input_format shuffle2 = Inr ds2"
    and pos1: "read_order rnd1 shuffle1 f1 = pre1 @ inst1 # post1"
    and pos2: "read_order rnd2 shuffle2 f2 = pre2 @ inst2 # post2"
    and n1: "n1 < length (choices inst1)"
    and n2: "n2 < length (choices inst2)"
    and stems: "stem inst1 = stem inst2"
    and chs: "choices inst1 ! n1 = choices inst2 ! n2"
  shows "content ds1 ! (texts_before input_format sep_token pre1 + n1) =
       content ds2 ! (texts_before input_format sep_token pre2 + n2)
     \<and> content ds1 ! (texts_before input_format sep_token pre1 + n1) =
       formatted input_format sep_token (stem inst1) (choices inst1 ! n1)"
proof -
  have "content ds1 ! (texts_before input_format sep_token pre1 + n1) =
      formatted input_format sep_token (stem inst1) (choices inst1 ! n1)"
    using fmt ds1 pos1 n1 by (rule content_nth)
  moreover have "content ds2 ! (texts_before input_format sep_token pre2 + n2) =
      formatted input_format sep_token (stem inst2) (choices inst2 ! n2)"
    using fmt ds2 pos2 n2 by (rule content_nth)
  ultimately show ?thesis
    using stems chs by simp
qed

theorem text_depends_on_stem_and_choice_witness:
  "\<exists>ds1 ds2. QASCDataset draw_first two_questions ''</s>'' ''2'' True = Inr ds1
     \<and> QASCDataset draw_first [two_choice ''p'' ''A''] ''</s>'' ''2'' False = Inr ds2
     \<and> content ds1 ! (2 + 1) = content ds2 ! (0 + 1)
     \<and> content ds1 ! (2 + 1) = ''p </s> y''"
proof -
  let ?p = "two_choice ''p'' ''B''"
  let ?q = "two_choice ''q'' ''A''"
  let ?p' = "two_choice ''p'' ''A''"
  have fmt: "''2'' \<in> {''0'', ''1'', ''2''}"
    by simp
  have "\<forall>inst\<in>set two_questions. label_key inst \<in> set answers"
    by (simp add: two_questions_def two_choice_def label_key_def answers_def)
  then obtain ds1 where ds1: "QASCDataset draw_first two_questions ''</s>'' ''2'' True = Inr ds1"
    by (simp add: QASCDataset_eq)
  have "\<forall>inst\<in>set [?p']. label_key inst \<in> set answers"
    by (simp add: two_choice_def label_key_def answers_def)
  then obtain ds2 where ds2: "QASCDataset draw_first [?p'] ''</s>'' ''2'' False = Inr ds2"
    by (simp add: QASCDataset_eq)
  have pos1: "read_order draw_first True two_questions = [?q] @ ?p # []"
    by (simp add: read_order_def random_shuffle_def two_questions_def swap_def
        randbelow_def draw_first_def)
  have pos2: "read_order draw_first False [?p'] = [] @ ?p' # []"
    by (simp add: read_order_def)
  have n1: "1 < length (choices ?p)" and n2: "1 < length (choices ?p')"
    by (simp_all add: two_choice_def)
  have stems: "stem ?p = stem ?p'"
    by (simp add: two_choice_def)
  have chs: "choices ?p ! 1 = choices ?p' ! 1"
    by (simp add: two_choice_def)
  have before1: "texts_before ''2'' ''</s>'' [?q] = 2"
    by (simp add: texts_before_def record_texts_def append_texts_def two_choice_def)
  have before2: "texts_before ''2'' ''</s>'' [] = 0"
    by (simp add: texts_before_def)
  have result: "formatted ''2'' ''</s>'' (stem ?p) (choices ?p ! 1) = ''p </s> y''"
    by (simp add: formatted_def format2_def two_choice_def)
  have "content ds1 ! (2 + 1) = content ds2 ! (0 + 1)
      \<and> content ds1 ! (2 + 1) = ''p </s> y''"
    using text_depends_on_stem_and_choice [OF fmt ds1 ds2 pos1 pos2 n1 n2 stems chs]
    unfolding before1 before2 result .
  with ds1 ds2 show ?thesis
    by blast
qed

subsection \<open>Which loaders shuffle\<close>











end
